theory Spec2Isabelle
  imports Main "HOL-Library.Word"
begin

unbundle bit_operations_syntax

section \<open>Vulkan data as the program reads it\<close>

text \<open>
  The program (\<^verbatim>\<open>src/main.cpp\<close>) asks the Vulkan driver about each physical device and
  decides from the answers. The handle \<^verbatim>\<open>VkPhysicalDevice\<close> is opaque; what the program
  can observe of it is the data the query functions return, so a device is modelled as
  the record of those answers. A query repeated on the same device returns the same data.

  \<^verbatim>\<open>uint32_t\<close>, \<^verbatim>\<open>VkBool32\<close>, \<^verbatim>\<open>VkFlags\<close> and the C enums \<^verbatim>\<open>VkFormat\<close> and
  \<^verbatim>\<open>VkColorSpaceKHR\<close> are 32-bit words. The numeric values of the enumerators are those
  of \<^verbatim>\<open>vulkan_core.h\<close>; no property below depends on them.
\<close>

type_synonym uint32_t = "32 word"
type_synonym VkBool32 = "32 word"
type_synonym VkQueueFlags = "32 word"
type_synonym VkFormat = "32 word"
type_synonym VkColorSpaceKHR = "32 word"

datatype VkPhysicalDeviceType =
    VK_PHYSICAL_DEVICE_TYPE_OTHER
  | VK_PHYSICAL_DEVICE_TYPE_INTEGRATED_GPU
  | VK_PHYSICAL_DEVICE_TYPE_DISCRETE_GPU
  | VK_PHYSICAL_DEVICE_TYPE_VIRTUAL_GPU
  | VK_PHYSICAL_DEVICE_TYPE_CPU

datatype VkPresentModeKHR =
    VK_PRESENT_MODE_IMMEDIATE_KHR
  | VK_PRESENT_MODE_MAILBOX_KHR
  | VK_PRESENT_MODE_FIFO_KHR
  | VK_PRESENT_MODE_FIFO_RELAXED_KHR

definition VK_QUEUE_GRAPHICS_BIT :: VkQueueFlags where
  "VK_QUEUE_GRAPHICS_BIT = 0x00000001"

definition VK_FORMAT_B8G8R8A8_SRGB :: VkFormat where
  "VK_FORMAT_B8G8R8A8_SRGB = 50"

definition VK_COLOR_SPACE_SRGB_NONLINEAR_KHR :: VkColorSpaceKHR where
  "VK_COLOR_SPACE_SRGB_NONLINEAR_KHR = 0"

definition VK_KHR_SWAPCHAIN_EXTENSION_NAME :: string where
  "VK_KHR_SWAPCHAIN_EXTENSION_NAME = ''VK_KHR_swapchain''"

definition UINT32_MAX :: uint32_t where
  "UINT32_MAX = 0xFFFFFFFF"

text \<open>\<^verbatim>\<open>const uint32_t WIDTH = 800, HEIGHT = 600;\<close>\<close>

definition WIDTH :: uint32_t where
  "WIDTH = 800"

definition HEIGHT :: uint32_t where
  "HEIGHT = 600"

text \<open>\<^verbatim>\<open>const std::vector<const char *> deviceExtensions = { VK_KHR_SWAPCHAIN_EXTENSION_NAME };\<close>\<close>

definition deviceExtensions :: "string list" where
  "deviceExtensions = [VK_KHR_SWAPCHAIN_EXTENSION_NAME]"

record VkExtent2D =
  width :: uint32_t
  height :: uint32_t

record VkSurfaceFormatKHR =
  format :: VkFormat
  colorSpace :: VkColorSpaceKHR

text \<open>The fields of \<^verbatim>\<open>VkSurfaceCapabilitiesKHR\<close> that the program reads.\<close>

record VkSurfaceCapabilitiesKHR =
  minImageCount :: uint32_t
  maxImageCount :: uint32_t
  currentExtent :: VkExtent2D
  minImageExtent :: VkExtent2D
  maxImageExtent :: VkExtent2D
  currentTransform :: "32 word"

record SwapChainSupportDetails =
  capabilities :: VkSurfaceCapabilitiesKHR
  formats :: "VkSurfaceFormatKHR list"
  presentModes :: "VkPresentModeKHR list"

record VkExtensionProperties =
  extensionName :: string
  specVersion :: uint32_t

text \<open>
  One entry of the queue family list: \<open>queueFlags\<close> is the field of
  \<^verbatim>\<open>VkQueueFamilyProperties\<close>, and \<open>presentSupport\<close> is what
  \<^verbatim>\<open>vkGetPhysicalDeviceSurfaceSupportKHR(device, i, surface, &presentSupport)\<close> writes for
  the index \<open>i\<close> of this entry.
\<close>

record QueueFamily =
  queueFlags :: VkQueueFlags
  presentSupport :: VkBool32

text \<open>
  \<^verbatim>\<open>struct QueueFamilyIndices\<close>: two \<^verbatim>\<open>std::optional<uint32_t>\<close>. The indices are kept as
  natural numbers; the loop counter of the source is an \<^verbatim>\<open>int\<close>, so the model is exact for
  devices with fewer than \<open>2^31\<close> queue families.
\<close>

record QueueFamilyIndices =
  graphicsFamily :: "nat option"
  presentFamily :: "nat option"

definition isComplete :: "QueueFamilyIndices \<Rightarrow> bool" where
  "isComplete indices = (graphicsFamily indices \<noteq> None \<and> presentFamily indices \<noteq> None)"

record PhysicalDevice =
  deviceType :: VkPhysicalDeviceType
  maxImageDimension2D :: uint32_t
  geometryShader :: VkBool32
  queueFamilies :: "QueueFamily list"
  availableExtensions :: "VkExtensionProperties list"
  surfaceCapabilities :: VkSurfaceCapabilitiesKHR
  surfaceFormats :: "VkSurfaceFormatKHR list"
  surfacePresentModes :: "VkPresentModeKHR list"

text \<open>
  What can go wrong: a \<^verbatim>\<open>std::runtime_error\<close> with its message, an access outside a
  vector, for which C++ defines no behaviour, and the \<^verbatim>\<open>std::bad_optional_access\<close> that
  \<^verbatim>\<open>value()\<close> throws on an empty \<^verbatim>\<open>std::optional\<close>.
\<close>

datatype failure = RuntimeError string | OutOfBoundsAccess | BadOptionalAccess

section \<open>Capability queries\<close>

text \<open>
  The body of the loop of \<^verbatim>\<open>findQueueFamilies\<close> before its \<^verbatim>\<open>break\<close> test: each of the two
  assignments overwrites what an earlier iteration stored.
\<close>

definition findQueueFamilies_body :: "QueueFamily \<Rightarrow> nat \<Rightarrow> QueueFamilyIndices \<Rightarrow> QueueFamilyIndices" where
  "findQueueFamilies_body queueFamily i indices =
     (let indices1 = (if (queueFlags queueFamily AND VK_QUEUE_GRAPHICS_BIT) \<noteq> 0
                      then indices\<lparr>graphicsFamily := Some i\<rparr> else indices);
          indices2 = (if presentSupport queueFamily \<noteq> 0
                      then indices1\<lparr>presentFamily := Some i\<rparr> else indices1)
      in indices2)"

fun findQueueFamilies_loop :: "QueueFamily list \<Rightarrow> nat \<Rightarrow> QueueFamilyIndices \<Rightarrow> QueueFamilyIndices" where
  "findQueueFamilies_loop [] i indices = indices"
| "findQueueFamilies_loop (queueFamily # rest) i indices =
     (let indices' = findQueueFamilies_body queueFamily i indices
      in if isComplete indices' then indices'
         else findQueueFamilies_loop rest (i + 1) indices')"

definition findQueueFamilies :: "PhysicalDevice \<Rightarrow> QueueFamilyIndices" where
  "findQueueFamilies device =
     findQueueFamilies_loop (queueFamilies device) 0 \<lparr>graphicsFamily = None, presentFamily = None\<rparr>"

text \<open>
  \<^verbatim>\<open>checkDeviceExtensionSupport\<close>: a \<^verbatim>\<open>std::set<std::string>\<close> of the required names, from
  which the name of every available extension is erased; the answer is whether the set
  ends empty.
\<close>

definition checkDeviceExtensionSupport :: "PhysicalDevice \<Rightarrow> bool" where
  "checkDeviceExtensionSupport device =
     (let requiredExtensions = set deviceExtensions;
          requiredExtensions' = fold (\<lambda>extension req. req - {extensionName extension})
                                  (availableExtensions device) requiredExtensions
      in requiredExtensions' = {})"

definition querySwapChainSupport :: "PhysicalDevice \<Rightarrow> SwapChainSupportDetails" where
  "querySwapChainSupport device =
     \<lparr>capabilities = surfaceCapabilities device,
      formats = surfaceFormats device,
      presentModes = surfacePresentModes device\<rparr>"

definition checkAdequateSwapChain :: "PhysicalDevice \<Rightarrow> bool" where
  "checkAdequateSwapChain device =
     (let swapChainSupport = querySwapChainSupport device
      in formats swapChainSupport \<noteq> [] \<and> presentModes swapChainSupport \<noteq> [])"

section \<open>Device selection\<close>

text \<open>
  \<^verbatim>\<open>isDeviceSuitable\<close>, with the sequence of calls it makes written out as a log beside
  its result: the two property queries, \<^verbatim>\<open>findQueueFamilies\<close>,
  \<^verbatim>\<open>checkDeviceExtensionSupport\<close> and, only inside \<^verbatim>\<open>if (extensionsSupported)\<close>,
  \<^verbatim>\<open>checkAdequateSwapChain\<close>, the one call that queries the swapchain support of the
  surface. \<^verbatim>\<open>deviceFeatures.geometryShader\<close> is a \<^verbatim>\<open>VkBool32\<close>, true when nonzero.
\<close>

datatype call =
    Call_vkGetPhysicalDeviceProperties
  | Call_vkGetPhysicalDeviceFeatures
  | Call_findQueueFamilies
  | Call_checkDeviceExtensionSupport
  | Call_checkAdequateSwapChain

definition isDeviceSuitable_calls :: "PhysicalDevice \<Rightarrow> bool \<times> call list" where
  "isDeviceSuitable_calls device =
     (let log0 = [Call_vkGetPhysicalDeviceProperties, Call_vkGetPhysicalDeviceFeatures];
          indices = findQueueFamilies device;
          log1 = log0 @ [Call_findQueueFamilies];
          extensionsSupported = checkDeviceExtensionSupport device;
          log2 = log1 @ [Call_checkDeviceExtensionSupport];
          (swapChainAdequate, log3) =
             (if extensionsSupported
              then (checkAdequateSwapChain device, log2 @ [Call_checkAdequateSwapChain])
              else (False, log2))
      in (deviceType device = VK_PHYSICAL_DEVICE_TYPE_DISCRETE_GPU \<and>
          geometryShader device \<noteq> 0 \<and>
          isComplete indices \<and>
          extensionsSupported \<and>
          swapChainAdequate, log3))"

definition isDeviceSuitable :: "PhysicalDevice \<Rightarrow> bool" where
  "isDeviceSuitable device = fst (isDeviceSuitable_calls device)"

text \<open>
  \<^verbatim>\<open>rateDeviceSuitability\<close>. The score is a C++ \<^verbatim>\<open>int\<close>. The additions of 1000 and 10 are
  \<^verbatim>\<open>int\<close> additions that cannot overflow. In \<^verbatim>\<open>score += deviceProperties.limits.maxImageDimension2D\<close>
  the right operand is a \<^verbatim>\<open>uint32_t\<close>, so the sum is computed in 32-bit unsigned arithmetic
  (modulo \<open>2^32\<close>) and converted back to \<^verbatim>\<open>int\<close>, which keeps the bit pattern (the rule
  of C++20, and what compilers did before it). The model computes on 32-bit words and
  returns the value of the \<^verbatim>\<open>int\<close>, read in two's complement by \<open>sint\<close>.
\<close>

definition rateDeviceSuitability :: "PhysicalDevice \<Rightarrow> int" where
  "rateDeviceSuitability device =
     (let score0 = (0 :: 32 word);
          score1 = (if deviceType device = VK_PHYSICAL_DEVICE_TYPE_DISCRETE_GPU
                    then score0 + 1000 else score0);
          indices = findQueueFamilies device;
          score2 = (if isComplete indices then score1 + 10 else score1);
          score3 = score2 + maxImageDimension2D device;
          extensionsSupported = checkDeviceExtensionSupport device
      in if geometryShader device = 0 \<or> \<not> extensionsSupported then 0
         else if extensionsSupported \<and> \<not> checkAdequateSwapChain device then 0
         else sint score3)"

text \<open>
  \<^verbatim>\<open>std::multimap<int, VkPhysicalDevice>\<close> as a list of pairs in increasing key order.
  \<^verbatim>\<open>insert\<close> puts a new pair after every pair whose key is not greater, so among equal
  keys the pairs stay in insertion order; \<^verbatim>\<open>rbegin()\<close> is the last pair of the list.
\<close>

fun multimap_insert :: "int \<times> 'a \<Rightarrow> (int \<times> 'a) list \<Rightarrow> (int \<times> 'a) list" where
  "multimap_insert kv [] = [kv]"
| "multimap_insert kv (e # es) =
     (if fst kv < fst e then kv # e # es else e # multimap_insert kv es)"

text \<open>
  \<^verbatim>\<open>pickPhysicalDevice\<close>, given the devices that \<^verbatim>\<open>vkEnumeratePhysicalDevices\<close> lists. It
  either throws or assigns the member \<^verbatim>\<open>physicalDevice\<close>; the model returns the error or
  the device assigned.
\<close>

definition pickPhysicalDevice :: "PhysicalDevice list \<Rightarrow> failure + PhysicalDevice" where
  "pickPhysicalDevice devices =
     (if length devices = 0
      then Inl (RuntimeError ''[ERROR] Failed to find GPUs with Vulkan support!'')
      else
        let candidates = foldl (\<lambda>candidates device.
                                   multimap_insert (rateDeviceSuitability device, device) candidates)
                           [] devices
        in if fst (last candidates) > 0
           then Inr (snd (last candidates))
           else Inl (RuntimeError ''[ERROR] Failed to find a suitable GPU!''))"

text \<open>
  The start of \<^verbatim>\<open>createLogicalDevice\<close>, which runs on the selected device:
  \<^verbatim>\<open>std::set<uint32_t> uniqueQueueFamilies = {indices.graphicsFamily.value(), indices.presentFamily.value()};\<close>
\<close>

definition createLogicalDevice_uniqueQueueFamilies :: "PhysicalDevice \<Rightarrow> failure + nat set" where
  "createLogicalDevice_uniqueQueueFamilies physicalDevice =
     (let indices = findQueueFamilies physicalDevice
      in case graphicsFamily indices of
           None \<Rightarrow> Inl BadOptionalAccess
         | Some g \<Rightarrow>
             (case presentFamily indices of
                None \<Rightarrow> Inl BadOptionalAccess
              | Some p \<Rightarrow> Inr {g, p}))"

section \<open>Swapchain configuration\<close>

fun chooseSwapSurfaceFormat_loop :: "VkSurfaceFormatKHR list \<Rightarrow> VkSurfaceFormatKHR option" where
  "chooseSwapSurfaceFormat_loop [] = None"
| "chooseSwapSurfaceFormat_loop (availableFormat # rest) =
     (if format availableFormat = VK_FORMAT_B8G8R8A8_SRGB \<and>
         colorSpace availableFormat = VK_COLOR_SPACE_SRGB_NONLINEAR_KHR
      then Some availableFormat
      else chooseSwapSurfaceFormat_loop rest)"

text \<open>
  After the loop the source returns \<^verbatim>\<open>availableFormats[0]\<close>, which for an empty vector
  reads outside it.
\<close>

definition chooseSwapSurfaceFormat :: "VkSurfaceFormatKHR list \<Rightarrow> failure + VkSurfaceFormatKHR" where
  "chooseSwapSurfaceFormat availableFormats =
     (case chooseSwapSurfaceFormat_loop availableFormats of
        Some availableFormat \<Rightarrow> Inr availableFormat
      | None \<Rightarrow> (if 0 < length availableFormats then Inr (availableFormats ! 0)
                 else Inl OutOfBoundsAccess))"

fun chooseSwapPresentMode_loop :: "VkPresentModeKHR list \<Rightarrow> VkPresentModeKHR option" where
  "chooseSwapPresentMode_loop [] = None"
| "chooseSwapPresentMode_loop (availablePresentMode # rest) =
     (if availablePresentMode = VK_PRESENT_MODE_MAILBOX_KHR
      then Some availablePresentMode
      else chooseSwapPresentMode_loop rest)"

definition chooseSwapPresentMode :: "VkPresentModeKHR list \<Rightarrow> VkPresentModeKHR" where
  "chooseSwapPresentMode availablePresentModes =
     (case chooseSwapPresentMode_loop availablePresentModes of
        Some availablePresentMode \<Rightarrow> availablePresentMode
      | None \<Rightarrow> VK_PRESENT_MODE_FIFO_KHR)"

text \<open>\<^verbatim>\<open>std::max\<close> and \<^verbatim>\<open>std::min\<close> on \<^verbatim>\<open>uint32_t\<close> compare unsigned, as the order on words does.\<close>

definition chooseSwapExtent :: "VkSurfaceCapabilitiesKHR \<Rightarrow> VkExtent2D" where
  "chooseSwapExtent caps =
     (if width (currentExtent caps) \<noteq> UINT32_MAX
      then currentExtent caps
      else
        let actualExtent = \<lparr>width = WIDTH, height = HEIGHT\<rparr>;
            actualExtent1 = actualExtent\<lparr>width :=
               max (width (minImageExtent caps))
                   (min (width (maxImageExtent caps)) (width actualExtent))\<rparr>;
            actualExtent2 = actualExtent1\<lparr>height :=
               max (height (minImageExtent caps))
                   (min (height (maxImageExtent caps)) (height actualExtent1))\<rparr>
        in actualExtent2)"

text \<open>
  The part of \<^verbatim>\<open>VkSwapchainCreateInfoKHR\<close> that \<^verbatim>\<open>createSwapChain\<close> derives from the
  queried support, as it stands when \<^verbatim>\<open>vkCreateSwapchainKHR\<close> is called.
\<close>

record VkSwapchainCreateInfoKHR =
  createInfo_minImageCount :: uint32_t
  createInfo_imageFormat :: VkFormat
  createInfo_imageColorSpace :: VkColorSpaceKHR
  createInfo_imageExtent :: VkExtent2D
  createInfo_preTransform :: "32 word"
  createInfo_presentMode :: VkPresentModeKHR

text \<open>The image count of \<^verbatim>\<open>createSwapChain\<close>: \<^verbatim>\<open>uint32_t\<close> arithmetic, so \<open>+ 1\<close> wraps.\<close>

definition createSwapChain_imageCount :: "VkSurfaceCapabilitiesKHR \<Rightarrow> uint32_t" where
  "createSwapChain_imageCount caps =
     (let imageCount = minImageCount caps + 1
      in if maxImageCount caps > 0 \<and> imageCount > maxImageCount caps
         then maxImageCount caps
         else imageCount)"

definition createSwapChain_createInfo :: "PhysicalDevice \<Rightarrow> failure + VkSwapchainCreateInfoKHR" where
  "createSwapChain_createInfo physicalDevice =
     (let swapChainSupport = querySwapChainSupport physicalDevice
      in case chooseSwapSurfaceFormat (formats swapChainSupport) of
           Inl e \<Rightarrow> Inl e
         | Inr surfaceFormat \<Rightarrow>
             let presentMode = chooseSwapPresentMode (presentModes swapChainSupport);
                 extent = chooseSwapExtent (capabilities swapChainSupport);
                 imageCount = createSwapChain_imageCount (capabilities swapChainSupport)
             in Inr \<lparr>createInfo_minImageCount = imageCount,
                     createInfo_imageFormat = format surfaceFormat,
                     createInfo_imageColorSpace = colorSpace surfaceFormat,
                     createInfo_imageExtent = extent,
                     createInfo_preTransform = currentTransform (capabilities swapChainSupport),
                     createInfo_presentMode = presentMode\<rparr>)"

section \<open>Concrete inputs\<close>

text \<open>A surface that leaves the extent to the application: both fields hold \<open>0xFFFFFFFF\<close>.\<close>

definition caps_sentinel :: VkSurfaceCapabilitiesKHR where
  "caps_sentinel =
     \<lparr>minImageCount = 2, maxImageCount = 0,
      currentExtent = \<lparr>width = 0xFFFFFFFF, height = 0xFFFFFFFF\<rparr>,
      minImageExtent = \<lparr>width = 1, height = 1\<rparr>,
      maxImageExtent = \<lparr>width = 4096, height = 4096\<rparr>,
      currentTransform = 1\<rparr>"

text \<open>A surface that dictates a width of 1024 while its height field holds \<open>0xFFFFFFFF\<close>.\<close>

definition caps_height_only :: VkSurfaceCapabilitiesKHR where
  "caps_height_only =
     \<lparr>minImageCount = 2, maxImageCount = 2,
      currentExtent = \<lparr>width = 1024, height = 0xFFFFFFFF\<rparr>,
      minImageExtent = \<lparr>width = 1, height = 1\<rparr>,
      maxImageExtent = \<lparr>width = 4096, height = 4096\<rparr>,
      currentTransform = 1\<rparr>"

text \<open>A surface whose minimum image count is the largest \<^verbatim>\<open>uint32_t\<close>.\<close>

definition caps_min_wraps :: VkSurfaceCapabilitiesKHR where
  "caps_min_wraps =
     \<lparr>minImageCount = 0xFFFFFFFF, maxImageCount = 0,
      currentExtent = \<lparr>width = 800, height = 600\<rparr>,
      minImageExtent = \<lparr>width = 1, height = 1\<rparr>,
      maxImageExtent = \<lparr>width = 4096, height = 4096\<rparr>,
      currentTransform = 1\<rparr>"

definition format_rgba_unorm :: VkSurfaceFormatKHR where
  "format_rgba_unorm = \<lparr>format = 37, colorSpace = 0\<rparr>"

definition format_bgra_srgb :: VkSurfaceFormatKHR where
  "format_bgra_srgb = \<lparr>format = 50, colorSpace = 0\<rparr>"

definition swapchain_extension :: VkExtensionProperties where
  "swapchain_extension = \<lparr>extensionName = ''VK_KHR_swapchain'', specVersion = 70\<rparr>"

text \<open>A discrete GPU with one queue family that both draws and presents.\<close>

definition gpu_discrete :: PhysicalDevice where
  "gpu_discrete =
     \<lparr>deviceType = VK_PHYSICAL_DEVICE_TYPE_DISCRETE_GPU,
      maxImageDimension2D = 8192,
      geometryShader = 1,
      queueFamilies = [\<lparr>queueFlags = 0x0F, presentSupport = 1\<rparr>],
      availableExtensions = [swapchain_extension],
      surfaceCapabilities = caps_sentinel,
      surfaceFormats = [format_rgba_unorm, format_bgra_srgb],
      surfacePresentModes = [VK_PRESENT_MODE_FIFO_KHR, VK_PRESENT_MODE_MAILBOX_KHR]\<rparr>"

text \<open>An integrated GPU with a smaller image limit, otherwise like \<open>gpu_discrete\<close>.\<close>

definition gpu_integrated :: PhysicalDevice where
  "gpu_integrated =
     gpu_discrete\<lparr>deviceType := VK_PHYSICAL_DEVICE_TYPE_INTEGRATED_GPU,
                   maxImageDimension2D := 4096\<rparr>"

text \<open>A device that reports the largest \<^verbatim>\<open>uint32_t\<close> as its image dimension limit.\<close>

definition gpu_wrap :: PhysicalDevice where
  "gpu_wrap = gpu_discrete\<lparr>maxImageDimension2D := 0xFFFFFFFF\<rparr>"

text \<open>A discrete GPU whose only queue family draws but cannot present to the surface.\<close>

definition gpu_no_present :: PhysicalDevice where
  "gpu_no_present =
     gpu_discrete\<lparr>maxImageDimension2D := 16384,
                   queueFamilies := [\<lparr>queueFlags = 0x0F, presentSupport = 0\<rparr>]\<rparr>"

text \<open>
  Two queue families: family 0 draws and does not present, family 1 draws and presents.
\<close>

definition gpu_two_families :: PhysicalDevice where
  "gpu_two_families =
     gpu_discrete\<lparr>queueFamilies := [\<lparr>queueFlags = 0x0F, presentSupport = 0\<rparr>,
                                      \<lparr>queueFlags = 0x01, presentSupport = 1\<rparr>]\<rparr>"

section \<open>Queue families\<close>

lemma findQueueFamilies_body_fields:
  "graphicsFamily (findQueueFamilies_body q i ind) =
     (if (queueFlags q AND VK_QUEUE_GRAPHICS_BIT) \<noteq> 0 then Some i else graphicsFamily ind)"
  "presentFamily (findQueueFamilies_body q i ind) =
     (if presentSupport q \<noteq> 0 then Some i else presentFamily ind)"
  by (simp_all add: findQueueFamilies_body_def)

lemma findQueueFamilies_loop_visits:
  fixes G P :: "QueueFamily \<Rightarrow> bool"
  defines "G \<equiv> \<lambda>q. (queueFlags q AND VK_QUEUE_GRAPHICS_BIT) \<noteq> 0"
    and "P \<equiv> \<lambda>q. presentSupport q \<noteq> 0"
  assumes "\<not> isComplete ind"
  shows "\<exists>n \<le> length qs.
           (\<forall>m < n. \<not> ((graphicsFamily ind \<noteq> None \<or> (\<exists>a < m. G (qs ! a))) \<and>
                        (presentFamily ind \<noteq> None \<or> (\<exists>b < m. P (qs ! b))))) \<and>
           (n < length qs \<longrightarrow> (graphicsFamily ind \<noteq> None \<or> (\<exists>a < n. G (qs ! a))) \<and>
                               (presentFamily ind \<noteq> None \<or> (\<exists>b < n. P (qs ! b)))) \<and>
           (if \<exists>a < n. G (qs ! a)
            then \<exists>g < n. graphicsFamily (findQueueFamilies_loop qs i ind) = Some (i + g) \<and>
                          G (qs ! g) \<and> (\<forall>a < n. G (qs ! a) \<longrightarrow> a \<le> g)
            else graphicsFamily (findQueueFamilies_loop qs i ind) = graphicsFamily ind) \<and>
           (if \<exists>b < n. P (qs ! b)
            then \<exists>p < n. presentFamily (findQueueFamilies_loop qs i ind) = Some (i + p) \<and>
                          P (qs ! p) \<and> (\<forall>b < n. P (qs ! b) \<longrightarrow> b \<le> p)
            else presentFamily (findQueueFamilies_loop qs i ind) = presentFamily ind)"
  using assms(3)
proof (induction qs arbitrary: i ind)
  case Nil
  then show ?case by simp
next
  case (Cons q qs)
  let ?ind' = "findQueueFamilies_body q i ind"
  have g': "graphicsFamily ?ind' = (if G q then Some i else graphicsFamily ind)"
    and p': "presentFamily ?ind' = (if P q then Some i else presentFamily ind)"
    by (simp_all add: findQueueFamilies_body_fields G_def P_def)
  show ?case
  proof (cases "isComplete ?ind'")
    case True
    have "findQueueFamilies_loop (q # qs) i ind = ?ind'"
      using True by simp
    with True Cons.prems show ?thesis
      by (intro exI [of _ 1]) (auto simp add: g' p' isComplete_def)
  next
    case False
    from Cons.IH [OF False, of "i + 1"] obtain n where n: "n \<le> length qs"
      and A: "\<forall>m < n. \<not> ((graphicsFamily ?ind' \<noteq> None \<or> (\<exists>a < m. G (qs ! a))) \<and>
                        (presentFamily ?ind' \<noteq> None \<or> (\<exists>b < m. P (qs ! b))))"
      and B: "n < length qs \<longrightarrow> (graphicsFamily ?ind' \<noteq> None \<or> (\<exists>a < n. G (qs ! a))) \<and>
                               (presentFamily ?ind' \<noteq> None \<or> (\<exists>b < n. P (qs ! b)))"
      and C: "if \<exists>a < n. G (qs ! a)
            then \<exists>g < n. graphicsFamily (findQueueFamilies_loop qs (i + 1) ?ind') = Some (i + 1 + g) \<and>
                          G (qs ! g) \<and> (\<forall>a < n. G (qs ! a) \<longrightarrow> a \<le> g)
            else graphicsFamily (findQueueFamilies_loop qs (i + 1) ?ind') = graphicsFamily ?ind'"
      and D: "if \<exists>b < n. P (qs ! b)
            then \<exists>p < n. presentFamily (findQueueFamilies_loop qs (i + 1) ?ind') = Some (i + 1 + p) \<and>
                          P (qs ! p) \<and> (\<forall>b < n. P (qs ! b) \<longrightarrow> b \<le> p)
            else presentFamily (findQueueFamilies_loop qs (i + 1) ?ind') = presentFamily ?ind'"
      by blast
    have l: "findQueueFamilies_loop (q # qs) i ind = findQueueFamilies_loop qs (i + 1) ?ind'"
      using False by simp
    have seenG: "(graphicsFamily ?ind' \<noteq> None \<or> (\<exists>a < m. G (qs ! a))) \<longleftrightarrow>
                 (graphicsFamily ind \<noteq> None \<or> (\<exists>a < Suc m. G ((q # qs) ! a)))" for m
      by (simp add: g' Ex_less_Suc2)
    have seenP: "(presentFamily ?ind' \<noteq> None \<or> (\<exists>b < m. P (qs ! b))) \<longleftrightarrow>
                 (presentFamily ind \<noteq> None \<or> (\<exists>b < Suc m. P ((q # qs) ! b)))" for m
      by (simp add: p' Ex_less_Suc2)
    have A': "\<forall>m < Suc n. \<not> ((graphicsFamily ind \<noteq> None \<or> (\<exists>a < m. G ((q # qs) ! a))) \<and>
                        (presentFamily ind \<noteq> None \<or> (\<exists>b < m. P ((q # qs) ! b))))"
    proof (intro allI impI)
      fix m assume "m < Suc n"
      show "\<not> ((graphicsFamily ind \<noteq> None \<or> (\<exists>a < m. G ((q # qs) ! a))) \<and>
                        (presentFamily ind \<noteq> None \<or> (\<exists>b < m. P ((q # qs) ! b))))"
      proof (cases m)
        case 0
        with Cons.prems show ?thesis by (simp add: isComplete_def)
      next
        case (Suc m')
        with \<open>m < Suc n\<close> have "m' < n" by simp
        with A show ?thesis unfolding Suc seenG [symmetric] seenP [symmetric] by blast
      qed
    qed
    have B': "Suc n < length (q # qs) \<longrightarrow>
                (graphicsFamily ind \<noteq> None \<or> (\<exists>a < Suc n. G ((q # qs) ! a))) \<and>
                (presentFamily ind \<noteq> None \<or> (\<exists>b < Suc n. P ((q # qs) ! b)))"
      using B unfolding seenG seenP by simp
    have C': "if \<exists>a < Suc n. G ((q # qs) ! a)
            then \<exists>g < Suc n. graphicsFamily (findQueueFamilies_loop (q # qs) i ind) = Some (i + g) \<and>
                          G ((q # qs) ! g) \<and> (\<forall>a < Suc n. G ((q # qs) ! a) \<longrightarrow> a \<le> g)
            else graphicsFamily (findQueueFamilies_loop (q # qs) i ind) = graphicsFamily ind"
    proof (cases "\<exists>a < n. G (qs ! a)")
      case True
      with C obtain g where g: "g < n"
        "graphicsFamily (findQueueFamilies_loop qs (i + 1) ?ind') = Some (i + 1 + g)"
        "G (qs ! g)" "\<forall>a < n. G (qs ! a) \<longrightarrow> a \<le> g"
        by auto
      have "\<forall>a < Suc n. G ((q # qs) ! a) \<longrightarrow> a \<le> Suc g"
        using g(4) by (simp add: All_less_Suc2)
      with g(1,2,3) have "\<exists>g < Suc n. graphicsFamily (findQueueFamilies_loop (q # qs) i ind) = Some (i + g) \<and>
                          G ((q # qs) ! g) \<and> (\<forall>a < Suc n. G ((q # qs) ! a) \<longrightarrow> a \<le> g)"
        unfolding l by (intro exI [of _ "Suc g"]) simp
      moreover have "\<exists>a < Suc n. G ((q # qs) ! a)"
        using True by (simp add: Ex_less_Suc2)
      ultimately show ?thesis by simp
    next
      case noG: False
      with C have r: "graphicsFamily (findQueueFamilies_loop (q # qs) i ind) = graphicsFamily ?ind'"
        unfolding l by simp
      show ?thesis
      proof (cases "G q")
        case True
        have "\<forall>a < Suc n. G ((q # qs) ! a) \<longrightarrow> a \<le> 0"
          using noG by (simp add: All_less_Suc2)
        with True r show ?thesis
          by (auto simp add: g' intro!: exI [of _ 0])
      next
        case False
        with noG have "\<not> (\<exists>a < Suc n. G ((q # qs) ! a))"
          by (simp add: Ex_less_Suc2)
        with False r show ?thesis by (auto simp add: g')
      qed
    qed
    have D': "if \<exists>b < Suc n. P ((q # qs) ! b)
            then \<exists>p < Suc n. presentFamily (findQueueFamilies_loop (q # qs) i ind) = Some (i + p) \<and>
                          P ((q # qs) ! p) \<and> (\<forall>b < Suc n. P ((q # qs) ! b) \<longrightarrow> b \<le> p)
            else presentFamily (findQueueFamilies_loop (q # qs) i ind) = presentFamily ind"
    proof (cases "\<exists>b < n. P (qs ! b)")
      case True
      with D obtain p where p: "p < n"
        "presentFamily (findQueueFamilies_loop qs (i + 1) ?ind') = Some (i + 1 + p)"
        "P (qs ! p)" "\<forall>b < n. P (qs ! b) \<longrightarrow> b \<le> p"
        by auto
      have "\<forall>b < Suc n. P ((q # qs) ! b) \<longrightarrow> b \<le> Suc p"
        using p(4) by (simp add: All_less_Suc2)
      with p(1,2,3) have "\<exists>p < Suc n. presentFamily (findQueueFamilies_loop (q # qs) i ind) = Some (i + p) \<and>
                          P ((q # qs) ! p) \<and> (\<forall>b < Suc n. P ((q # qs) ! b) \<longrightarrow> b \<le> p)"
        unfolding l by (intro exI [of _ "Suc p"]) simp
      moreover have "\<exists>b < Suc n. P ((q # qs) ! b)"
        using True by (simp add: Ex_less_Suc2)
      ultimately show ?thesis by simp
    next
      case noP: False
      with D have r: "presentFamily (findQueueFamilies_loop (q # qs) i ind) = presentFamily ?ind'"
        unfolding l by simp
      show ?thesis
      proof (cases "P q")
        case True
        have "\<forall>b < Suc n. P ((q # qs) ! b) \<longrightarrow> b \<le> 0"
          using noP by (simp add: All_less_Suc2)
        with True r show ?thesis
          by (auto simp add: p' intro!: exI [of _ 0])
      next
        case False
        with noP have "\<not> (\<exists>b < Suc n. P ((q # qs) ! b))"
          by (simp add: Ex_less_Suc2)
        with False r show ?thesis by (auto simp add: p')
      qed
    qed
    from n have "Suc n \<le> length (q # qs)" by simp
    with A' B' C' D' show ?thesis by blast
  qed
qed

text \<open>
  Claim C4, amended. \<^verbatim>\<open>findQueueFamilies\<close> visits the families in index order and stops
  right after the first index by which both a graphics-capable and a
  presentation-capable family have been visited, or at the end of the list. With \<open>n\<close>
  the number of families visited (there is exactly one such \<open>n\<close>), the graphics role is
  the highest index below \<open>n\<close> whose flags include \<^verbatim>\<open>VK_QUEUE_GRAPHICS_BIT\<close>, and
  independently the present role is the highest index below \<open>n\<close> that supports
  presentation: among the visited families the last match wins for each role. A role
  without a match among them stays empty.
\<close>

theorem findQueueFamilies_last_visited_match:
  fixes device :: PhysicalDevice
  defines "fams \<equiv> queueFamilies device"
  defines "G \<equiv> \<lambda>a. (queueFlags (fams ! a) AND VK_QUEUE_GRAPHICS_BIT) \<noteq> 0"
    and "P \<equiv> \<lambda>b. presentSupport (fams ! b) \<noteq> 0"
  shows "(\<exists>n \<le> length fams.
            (\<forall>m < n. \<not> ((\<exists>a < m. G a) \<and> (\<exists>b < m. P b))) \<and>
            (n < length fams \<longrightarrow> (\<exists>a < n. G a) \<and> (\<exists>b < n. P b))) \<and>
         (\<forall>n \<le> length fams.
            (\<forall>m < n. \<not> ((\<exists>a < m. G a) \<and> (\<exists>b < m. P b))) \<and>
            (n < length fams \<longrightarrow> (\<exists>a < n. G a) \<and> (\<exists>b < n. P b)) \<longrightarrow>
            (case graphicsFamily (findQueueFamilies device) of
               None \<Rightarrow> \<forall>a < n. \<not> G a
             | Some g \<Rightarrow> g < n \<and> G g \<and> (\<forall>a < n. G a \<longrightarrow> a \<le> g)) \<and>
            (case presentFamily (findQueueFamilies device) of
               None \<Rightarrow> \<forall>b < n. \<not> P b
             | Some p \<Rightarrow> p < n \<and> P p \<and> (\<forall>b < n. P b \<longrightarrow> b \<le> p)))"
proof -
  let ?r = "findQueueFamilies device"
  let ?stop = "\<lambda>n. (\<forall>m < n. \<not> ((\<exists>a < m. G a) \<and> (\<exists>b < m. P b))) \<and>
                    (n < length fams \<longrightarrow> (\<exists>a < n. G a) \<and> (\<exists>b < n. P b))"
  have "\<not> isComplete \<lparr>graphicsFamily = None, presentFamily = None\<rparr>"
    by (simp add: isComplete_def)
  from findQueueFamilies_loop_visits [OF this, of fams 0]
  have "\<exists>k \<le> length fams. ?stop k \<and>
          (if \<exists>a < k. G a
            then \<exists>g < k. graphicsFamily ?r = Some g \<and> G g \<and> (\<forall>a < k. G a \<longrightarrow> a \<le> g)
            else graphicsFamily ?r = None) \<and>
          (if \<exists>b < k. P b
            then \<exists>p < k. presentFamily ?r = Some p \<and> P p \<and> (\<forall>b < k. P b \<longrightarrow> b \<le> p)
            else presentFamily ?r = None)"
    unfolding findQueueFamilies_def fams_def G_def P_def
    by (simp only: add_0 QueueFamilyIndices.select_convs simp_thms conj_assoc)
  then obtain k where k: "k \<le> length fams" "?stop k"
    and g: "if \<exists>a < k. G a
            then \<exists>g < k. graphicsFamily ?r = Some g \<and> G g \<and> (\<forall>a < k. G a \<longrightarrow> a \<le> g)
            else graphicsFamily ?r = None"
    and p: "if \<exists>b < k. P b
            then \<exists>p < k. presentFamily ?r = Some p \<and> P p \<and> (\<forall>b < k. P b \<longrightarrow> b \<le> p)
            else presentFamily ?r = None"
    by blast
  have uniq: "n = k" if "n \<le> length fams" "?stop n" for n
  proof (rule ccontr)
    assume "n \<noteq> k"
    then consider "n < k" | "k < n" by linarith
    then show False
    proof cases
      case 1
      with k(1) have "n < length fams" by simp
      with that(2) have "(\<exists>a < n. G a) \<and> (\<exists>b < n. P b)" by blast
      with k(2) 1 show False by blast
    next
      case 2
      with that(1) have "k < length fams" by simp
      with k(2) have "(\<exists>a < k. G a) \<and> (\<exists>b < k. P b)" by blast
      with that(2) 2 show False by blast
    qed
  qed
  have roles: "(case graphicsFamily ?r of
               None \<Rightarrow> \<forall>a < k. \<not> G a
             | Some g \<Rightarrow> g < k \<and> G g \<and> (\<forall>a < k. G a \<longrightarrow> a \<le> g)) \<and>
            (case presentFamily ?r of
               None \<Rightarrow> \<forall>b < k. \<not> P b
             | Some p \<Rightarrow> p < k \<and> P p \<and> (\<forall>b < k. P b \<longrightarrow> b \<le> p))"
    using g p by (auto split: if_splits)
  have ex: "\<exists>n \<le> length fams. ?stop n"
    using k by blast
  have "?stop n \<longrightarrow>
            (case graphicsFamily ?r of
               None \<Rightarrow> \<forall>a < n. \<not> G a
             | Some g \<Rightarrow> g < n \<and> G g \<and> (\<forall>a < n. G a \<longrightarrow> a \<le> g)) \<and>
            (case presentFamily ?r of
               None \<Rightarrow> \<forall>b < n. \<not> P b
             | Some p \<Rightarrow> p < n \<and> P p \<and> (\<forall>b < n. P b \<longrightarrow> b \<le> p))"
    if "n \<le> length fams" for n
  proof
    assume "?stop n"
    with that have nk: "n = k" by (rule uniq)
    show "(case graphicsFamily ?r of
               None \<Rightarrow> \<forall>a < n. \<not> G a
             | Some g \<Rightarrow> g < n \<and> G g \<and> (\<forall>a < n. G a \<longrightarrow> a \<le> g)) \<and>
            (case presentFamily ?r of
               None \<Rightarrow> \<forall>b < n. \<not> P b
             | Some p \<Rightarrow> p < n \<and> P p \<and> (\<forall>b < n. P b \<longrightarrow> b \<le> p))"
      unfolding nk by (rule roles)
  qed
  with ex show ?thesis by blast
qed

theorem findQueueFamilies_last_visited_match_witness:
  "graphicsFamily (findQueueFamilies gpu_two_families) = Some 1 \<and>
   presentFamily (findQueueFamilies gpu_two_families) = Some 1"
proof -
  note t = findQueueFamilies_last_visited_match [of gpu_two_families, THEN conjunct2, rule_format, of 2]
  have fams: "queueFamilies gpu_two_families =
     [\<lparr>queueFlags = 0x0F, presentSupport = 0\<rparr>, \<lparr>queueFlags = 0x01, presentSupport = 1\<rparr>]"
    by (simp add: gpu_two_families_def gpu_discrete_def)
  show ?thesis
    using t unfolding fams
    apply (simp add: VK_QUEUE_GRAPHICS_BIT_def All_less_Suc Ex_less_Suc numeral_2_eq_2 less_Suc_eq
        split: option.splits)
    apply auto
    done
qed

text \<open>
  Claim C4 as stated fails: family 0 of \<open>gpu_two_families\<close> is graphics-capable, yet the
  graphics role is 1, because the visit of family 1 overwrites it before the loop stops.
\<close>

theorem findQueueFamilies_first_match_counterexample:
  "(queueFlags (queueFamilies gpu_two_families ! 0) AND VK_QUEUE_GRAPHICS_BIT) \<noteq> 0 \<and>
   graphicsFamily (findQueueFamilies gpu_two_families) = Some 1 \<and>
   graphicsFamily (findQueueFamilies gpu_two_families) \<noteq> Some 0"
  by (simp add: gpu_two_families_def gpu_discrete_def findQueueFamilies_def
        findQueueFamilies_body_def isComplete_def VK_QUEUE_GRAPHICS_BIT_def)

section \<open>Extension support\<close>

lemma checkDeviceExtensionSupport_fold:
  "fold (\<lambda>extension req. req - {extensionName extension}) exts req = req - extensionName ` set exts"
  by (induction exts arbitrary: req) auto

lemma checkDeviceExtensionSupport_iff:
  "checkDeviceExtensionSupport device \<longleftrightarrow>
     set deviceExtensions \<subseteq> extensionName ` set (availableExtensions device)"
  by (simp add: checkDeviceExtensionSupport_def checkDeviceExtensionSupport_fold)

section \<open>The suitability predicate\<close>

text \<open>
  Claim C5. \<^verbatim>\<open>isDeviceSuitable\<close> is true exactly when the device is a discrete GPU, has the
  geometry shader feature, has complete queue family indices, offers every required
  extension, and reports at least one surface format and one present mode. The swapchain
  support is queried (\<^verbatim>\<open>checkAdequateSwapChain\<close> is called) exactly when the extensions are
  supported; when they are not, adequacy counts as false and the device is unsuitable.
\<close>

theorem isDeviceSuitable_iff:
  "(isDeviceSuitable device \<longleftrightarrow>
      deviceType device = VK_PHYSICAL_DEVICE_TYPE_DISCRETE_GPU \<and>
      geometryShader device \<noteq> 0 \<and>
      isComplete (findQueueFamilies device) \<and>
      set deviceExtensions \<subseteq> extensionName ` set (availableExtensions device) \<and>
      surfaceFormats device \<noteq> [] \<and> surfacePresentModes device \<noteq> []) \<and>
   (Call_checkAdequateSwapChain \<in> set (snd (isDeviceSuitable_calls device)) \<longleftrightarrow>
      set deviceExtensions \<subseteq> extensionName ` set (availableExtensions device)) \<and>
   (\<not> set deviceExtensions \<subseteq> extensionName ` set (availableExtensions device) \<longrightarrow>
      \<not> isDeviceSuitable device)"
  by (auto simp add: isDeviceSuitable_def isDeviceSuitable_calls_def Let_def
        checkDeviceExtensionSupport_iff checkAdequateSwapChain_def querySwapChainSupport_def)

theorem isDeviceSuitable_iff_witness:
  "isDeviceSuitable gpu_discrete \<and>
   Call_checkAdequateSwapChain \<in> set (snd (isDeviceSuitable_calls gpu_discrete)) \<and>
   \<not> isDeviceSuitable (gpu_discrete\<lparr>availableExtensions := []\<rparr>) \<and>
   Call_checkAdequateSwapChain \<notin> set (snd (isDeviceSuitable_calls (gpu_discrete\<lparr>availableExtensions := []\<rparr>)))"
  using isDeviceSuitable_iff [of gpu_discrete]
    isDeviceSuitable_iff [of "gpu_discrete\<lparr>availableExtensions := []\<rparr>"]
  by (simp add: gpu_discrete_def swapchain_extension_def deviceExtensions_def
        VK_KHR_SWAPCHAIN_EXTENSION_NAME_def findQueueFamilies_def findQueueFamilies_body_def
        isComplete_def VK_QUEUE_GRAPHICS_BIT_def)

section \<open>The score\<close>

lemma sint_int_score:
  fixes t :: int
  assumes "0 \<le> t" and "t < 2 ^ 32 + 2 ^ 31"
  shows "sint (word_of_int t :: 32 word) = (if t < 2 ^ 31 then t else t - 2 ^ 32)"
proof (cases "t < 2 ^ 31")
  case True
  with assms show ?thesis
    by (simp add: sint_sbintrunc' signed_take_bit_int_eq_self)
next
  case False
  have "(t + 2 ^ 31) mod 2 ^ 32 = (t + 2 ^ 31 - 2 ^ 32) mod 2 ^ 32"
    by (simp only: minus_mod_self2)
  also have "\<dots> = t + 2 ^ 31 - 2 ^ 32"
    using False assms by (intro mod_pos_pos_trivial) simp_all
  finally have "signed_take_bit 31 t = t - 2 ^ 32"
    by (simp add: signed_take_bit_eq_take_bit_shift take_bit_eq_mod)
  then show ?thesis using False by (simp add: sint_sbintrunc')
qed

text \<open>
  Claim C1, amended. Let the total be 0, plus 1000 if the device type is discrete GPU,
  plus 10 if the queue family indices are complete, plus \<^verbatim>\<open>maxImageDimension2D\<close>. The
  score is 0 whenever the geometry shader feature is absent, or a required extension is
  unsupported, or the format list or the present mode list is empty. Otherwise the score
  is the total when the total is at most \<open>2^31 - 1\<close>, and the total minus \<open>2^32\<close> when it
  is larger: the addition of the \<^verbatim>\<open>uint32_t\<close> limit is a 32-bit addition whose result is
  stored in an \<^verbatim>\<open>int\<close>.
\<close>

theorem rateDeviceSuitability_score:
  "(let total = (if deviceType device = VK_PHYSICAL_DEVICE_TYPE_DISCRETE_GPU then 1000 else 0) +
                (if isComplete (findQueueFamilies device) then 10 else 0) +
                uint (maxImageDimension2D device);
        veto = (geometryShader device = 0 \<or>
                \<not> set deviceExtensions \<subseteq> extensionName ` set (availableExtensions device) \<or>
                surfaceFormats device = [] \<or> surfacePresentModes device = [])
    in (veto \<longrightarrow> rateDeviceSuitability device = 0) \<and>
       (\<not> veto \<and> total < 2 ^ 31 \<longrightarrow> rateDeviceSuitability device = total) \<and>
       (\<not> veto \<and> 2 ^ 31 \<le> total \<longrightarrow> rateDeviceSuitability device = total - 2 ^ 32))"
proof -
  define a :: int where "a = (if deviceType device = VK_PHYSICAL_DEVICE_TYPE_DISCRETE_GPU then 1000 else 0)"
  define b :: int where "b = (if isComplete (findQueueFamilies device) then 10 else 0)"
  define t where "t = a + b + uint (maxImageDimension2D device)"
  have ab: "0 \<le> a" "a \<le> 1000" "0 \<le> b" "b \<le> 10"
    by (simp_all add: a_def b_def)
  have m: "0 \<le> uint (maxImageDimension2D device)" "uint (maxImageDimension2D device) < 2 ^ 32"
    using uint_lt2p [of "maxImageDimension2D device"] by simp_all
  have t: "0 \<le> t" "t < 2 ^ 32 + 2 ^ 31"
    using ab m by (simp_all add: t_def)
  have w: "(if isComplete (findQueueFamilies device)
            then (if deviceType device = VK_PHYSICAL_DEVICE_TYPE_DISCRETE_GPU then 0 + 1000 else 0) + 10
            else (if deviceType device = VK_PHYSICAL_DEVICE_TYPE_DISCRETE_GPU then 0 + 1000 else 0)) +
           maxImageDimension2D device = (word_of_int t :: 32 word)"
    by (simp add: t_def a_def b_def)
  have s: "sint (word_of_int t :: 32 word) = (if t < 2 ^ 31 then t else t - 2 ^ 32)"
    using t by (rule sint_int_score)
  have r: "rateDeviceSuitability device =
             (if geometryShader device = 0 \<or>
                 \<not> set deviceExtensions \<subseteq> extensionName ` set (availableExtensions device) \<or>
                 surfaceFormats device = [] \<or> surfacePresentModes device = []
              then 0 else sint (word_of_int t :: 32 word))"
    unfolding rateDeviceSuitability_def Let_def w
    by (simp add: checkDeviceExtensionSupport_iff checkAdequateSwapChain_def querySwapChainSupport_def)
  show ?thesis
    unfolding Let_def r s t_def [symmetric] a_def [symmetric] b_def [symmetric]
    by (simp add: t_def)
qed

theorem rateDeviceSuitability_score_witness:
  "rateDeviceSuitability gpu_discrete = 9202 \<and>
   rateDeviceSuitability (gpu_discrete\<lparr>geometryShader := 0\<rparr>) = 0 \<and>
   rateDeviceSuitability (gpu_discrete\<lparr>maxImageDimension2D := 0x80000000\<rparr>) = - 2147482638"
  using rateDeviceSuitability_score [of gpu_discrete]
    rateDeviceSuitability_score [of "gpu_discrete\<lparr>geometryShader := 0\<rparr>"]
    rateDeviceSuitability_score [of "gpu_discrete\<lparr>maxImageDimension2D := 0x80000000\<rparr>"]
  by (simp add: gpu_discrete_def swapchain_extension_def deviceExtensions_def
        VK_KHR_SWAPCHAIN_EXTENSION_NAME_def findQueueFamilies_def findQueueFamilies_body_def
        isComplete_def VK_QUEUE_GRAPHICS_BIT_def Let_def)

text \<open>
  Claim C1 as stated fails where the 32-bit addition wraps: \<open>gpu_wrap\<close> is a discrete GPU
  with complete indices that passes every veto, its limit is \<open>4294967295\<close>, and its score
  is 1009, not \<open>1000 + 10 + 4294967295\<close>.
\<close>

theorem rateDeviceSuitability_wraps:
  "deviceType gpu_wrap = VK_PHYSICAL_DEVICE_TYPE_DISCRETE_GPU \<and>
   isComplete (findQueueFamilies gpu_wrap) \<and>
   geometryShader gpu_wrap \<noteq> 0 \<and>
   checkDeviceExtensionSupport gpu_wrap \<and>
   checkAdequateSwapChain gpu_wrap \<and>
   uint (maxImageDimension2D gpu_wrap) = 4294967295 \<and>
   rateDeviceSuitability gpu_wrap = 1009 \<and>
   rateDeviceSuitability gpu_wrap \<noteq> 0 + 1000 + 10 + uint (maxImageDimension2D gpu_wrap)"
  by (simp add: gpu_wrap_def gpu_discrete_def swapchain_extension_def deviceExtensions_def
        VK_KHR_SWAPCHAIN_EXTENSION_NAME_def findQueueFamilies_def findQueueFamilies_body_def
        isComplete_def VK_QUEUE_GRAPHICS_BIT_def rateDeviceSuitability_def
        checkDeviceExtensionSupport_def checkAdequateSwapChain_def querySwapChainSupport_def)

section \<open>Picking the device\<close>

lemma set_multimap_insert: "set (multimap_insert kv es) = insert kv (set es)"
  by (induction es) auto

lemma sorted_multimap_insert:
  "sorted (map fst es) \<Longrightarrow> sorted (map fst (multimap_insert kv es))"
  by (induction es) (auto simp add: set_multimap_insert)

lemma candidates_foldl:
  "sorted (map fst acc) \<Longrightarrow>
   sorted (map fst (foldl (\<lambda>candidates device. multimap_insert (rate device, device) candidates) acc devices)) \<and>
   set (foldl (\<lambda>candidates device. multimap_insert (rate device, device) candidates) acc devices) =
     set acc \<union> (\<lambda>device. (rate device, device)) ` set devices"
  by (induction devices arbitrary: acc) (auto simp add: set_multimap_insert sorted_multimap_insert)

lemma sorted_fst_last:
  "sorted (map fst es) \<Longrightarrow> e \<in> set es \<Longrightarrow> fst e \<le> fst (last es)"
  by (induction es) (auto split: if_splits)

lemma candidates_rbegin:
  assumes "devices \<noteq> []"
  defines "candidates \<equiv> foldl (\<lambda>candidates device.
     multimap_insert (rateDeviceSuitability device, device) candidates) [] devices"
  shows "snd (last candidates) \<in> set devices"
    and "fst (last candidates) = rateDeviceSuitability (snd (last candidates))"
    and "\<forall>d \<in> set devices. rateDeviceSuitability d \<le> fst (last candidates)"
proof -
  have s: "sorted (map fst candidates)"
    and m: "set candidates = (\<lambda>device. (rateDeviceSuitability device, device)) ` set devices"
    using candidates_foldl [of "[]" rateDeviceSuitability devices] by (simp_all add: candidates_def)
  from m assms(1) have "candidates \<noteq> []" by auto
  then have "last candidates \<in> set candidates" by simp
  with m obtain d where d: "d \<in> set devices" "last candidates = (rateDeviceSuitability d, d)"
    by auto
  then show "snd (last candidates) \<in> set devices"
    and "fst (last candidates) = rateDeviceSuitability (snd (last candidates))"
    by simp_all
  show "\<forall>d \<in> set devices. rateDeviceSuitability d \<le> fst (last candidates)"
  proof
    fix d assume "d \<in> set devices"
    then have "(rateDeviceSuitability d, d) \<in> set candidates" using m by simp
    from sorted_fst_last [OF s this] show "rateDeviceSuitability d \<le> fst (last candidates)" by simp
  qed
qed

lemma pickPhysicalDevice_cases:
  assumes "devices \<noteq> []"
  obtains d where "d \<in> set devices" and "\<forall>d' \<in> set devices. rateDeviceSuitability d' \<le> rateDeviceSuitability d"
    and "pickPhysicalDevice devices =
           (if 0 < rateDeviceSuitability d then Inr d
            else Inl (RuntimeError ''[ERROR] Failed to find a suitable GPU!''))"
proof -
  let ?c = "foldl (\<lambda>candidates device.
     multimap_insert (rateDeviceSuitability device, device) candidates) [] devices"
  note r = candidates_rbegin [OF assms]
  show thesis
  proof (rule that [of "snd (last ?c)"])
    show "snd (last ?c) \<in> set devices" by (rule r(1))
    show "\<forall>d' \<in> set devices. rateDeviceSuitability d' \<le> rateDeviceSuitability (snd (last ?c))"
      using r(3) by (simp only: r(2))
    show "pickPhysicalDevice devices =
           (if 0 < rateDeviceSuitability (snd (last ?c)) then Inr (snd (last ?c))
            else Inl (RuntimeError ''[ERROR] Failed to find a suitable GPU!''))"
      using assms r(2) by (simp add: pickPhysicalDevice_def Let_def)
  qed
qed

lemma pickPhysicalDevice_Inr:
  assumes "pickPhysicalDevice devices = Inr d"
  shows "d \<in> set devices \<and> 0 < rateDeviceSuitability d"
proof -
  from assms have ne: "devices \<noteq> []"
    by (auto simp add: pickPhysicalDevice_def)
  from pickPhysicalDevice_cases [OF ne] obtain d' where
    "d' \<in> set devices"
    "pickPhysicalDevice devices =
           (if 0 < rateDeviceSuitability d' then Inr d'
            else Inl (RuntimeError ''[ERROR] Failed to find a suitable GPU!''))"
    by metis
  with assms show ?thesis by (auto split: if_splits)
qed

text \<open>
  Claim C2. On a non-empty device list with at least one strictly positive score,
  \<^verbatim>\<open>pickPhysicalDevice\<close> selects a device of the list whose score is the maximum over the
  list. On an empty list, and on a list where no device scores above zero, it throws a
  \<^verbatim>\<open>std::runtime_error\<close> and selects nothing.
\<close>

theorem pickPhysicalDevice_max_score:
  "(devices = [] \<longrightarrow>
      pickPhysicalDevice devices = Inl (RuntimeError ''[ERROR] Failed to find GPUs with Vulkan support!'')) \<and>
   (devices \<noteq> [] \<and> (\<forall>d \<in> set devices. rateDeviceSuitability d \<le> 0) \<longrightarrow>
      pickPhysicalDevice devices = Inl (RuntimeError ''[ERROR] Failed to find a suitable GPU!'')) \<and>
   (devices \<noteq> [] \<and> (\<exists>d \<in> set devices. 0 < rateDeviceSuitability d) \<longrightarrow>
      (\<exists>d \<in> set devices. pickPhysicalDevice devices = Inr d \<and>
          0 < rateDeviceSuitability d \<and>
          rateDeviceSuitability d = Max (rateDeviceSuitability ` set devices) \<and>
          (\<forall>d' \<in> set devices. rateDeviceSuitability d' \<le> rateDeviceSuitability d)))"
proof (intro conjI impI)
  assume "devices = []"
  then show "pickPhysicalDevice devices = Inl (RuntimeError ''[ERROR] Failed to find GPUs with Vulkan support!'')"
    by (simp add: pickPhysicalDevice_def)
next
  assume a: "devices \<noteq> [] \<and> (\<forall>d \<in> set devices. rateDeviceSuitability d \<le> 0)"
  then obtain d where "d \<in> set devices"
    "pickPhysicalDevice devices =
           (if 0 < rateDeviceSuitability d then Inr d
            else Inl (RuntimeError ''[ERROR] Failed to find a suitable GPU!''))"
    using pickPhysicalDevice_cases [of devices] by metis
  with a show "pickPhysicalDevice devices = Inl (RuntimeError ''[ERROR] Failed to find a suitable GPU!'')"
    by auto
next
  assume a: "devices \<noteq> [] \<and> (\<exists>d \<in> set devices. 0 < rateDeviceSuitability d)"
  then obtain d where d: "d \<in> set devices"
    "\<forall>d' \<in> set devices. rateDeviceSuitability d' \<le> rateDeviceSuitability d"
    "pickPhysicalDevice devices =
           (if 0 < rateDeviceSuitability d then Inr d
            else Inl (RuntimeError ''[ERROR] Failed to find a suitable GPU!''))"
    using pickPhysicalDevice_cases [of devices] by metis
  from a d(2) have pos: "0 < rateDeviceSuitability d" by fastforce
  have "Max (rateDeviceSuitability ` set devices) = rateDeviceSuitability d"
    using d(1,2) by (intro Max_eqI) auto
  with d pos show "\<exists>d \<in> set devices. pickPhysicalDevice devices = Inr d \<and>
          0 < rateDeviceSuitability d \<and>
          rateDeviceSuitability d = Max (rateDeviceSuitability ` set devices) \<and>
          (\<forall>d' \<in> set devices. rateDeviceSuitability d' \<le> rateDeviceSuitability d)"
    by auto
qed

theorem pickPhysicalDevice_max_score_witness:
  "rateDeviceSuitability gpu_integrated = 4106 \<and>
   rateDeviceSuitability gpu_discrete = 9202 \<and>
   pickPhysicalDevice [gpu_integrated, gpu_discrete] = Inr gpu_discrete \<and>
   pickPhysicalDevice [] = Inl (RuntimeError ''[ERROR] Failed to find GPUs with Vulkan support!'') \<and>
   pickPhysicalDevice [gpu_discrete\<lparr>geometryShader := 0\<rparr>] =
     Inl (RuntimeError ''[ERROR] Failed to find a suitable GPU!'')"
proof -
  have r: "rateDeviceSuitability gpu_integrated = 4106"
    "rateDeviceSuitability gpu_discrete = 9202"
    "rateDeviceSuitability (gpu_discrete\<lparr>geometryShader := 0\<rparr>) = 0"
    by (simp_all add: gpu_integrated_def gpu_discrete_def swapchain_extension_def
          deviceExtensions_def VK_KHR_SWAPCHAIN_EXTENSION_NAME_def findQueueFamilies_def
          findQueueFamilies_body_def isComplete_def VK_QUEUE_GRAPHICS_BIT_def
          rateDeviceSuitability_def checkDeviceExtensionSupport_def checkAdequateSwapChain_def
          querySwapChainSupport_def)
  have "pickPhysicalDevice [gpu_integrated, gpu_discrete] = Inr gpu_discrete"
    using pickPhysicalDevice_max_score [of "[gpu_integrated, gpu_discrete]"] r by auto
  moreover have "pickPhysicalDevice [] =
      Inl (RuntimeError ''[ERROR] Failed to find GPUs with Vulkan support!'')"
    using pickPhysicalDevice_max_score [of "[]"] by simp
  moreover have "pickPhysicalDevice [gpu_discrete\<lparr>geometryShader := 0\<rparr>] =
      Inl (RuntimeError ''[ERROR] Failed to find a suitable GPU!'')"
    using pickPhysicalDevice_max_score [of "[gpu_discrete\<lparr>geometryShader := 0\<rparr>]"] r by simp
  ultimately show ?thesis using r by simp
qed

text \<open>
  Claim C3 says that a device whose queue family indices are incomplete scores 0 and so
  is never selected. The program does otherwise. \<open>gpu_no_present\<close> has no
  presentation-capable queue family, its indices are incomplete and \<^verbatim>\<open>isDeviceSuitable\<close>
  rejects it; yet \<^verbatim>\<open>rateDeviceSuitability\<close> gives it \<open>1000 + 16384\<close>, only the bonus of 10
  being withheld, \<^verbatim>\<open>pickPhysicalDevice\<close> selects it, and \<^verbatim>\<open>createLogicalDevice\<close> then fails
  on the empty optional.
\<close>

theorem rateDeviceSuitability_incomplete_roles:
  "presentFamily (findQueueFamilies gpu_no_present) = None \<and>
   \<not> isComplete (findQueueFamilies gpu_no_present) \<and>
   rateDeviceSuitability gpu_no_present = 17384 \<and>
   pickPhysicalDevice [gpu_no_present] = Inr gpu_no_present \<and>
   \<not> isDeviceSuitable gpu_no_present \<and>
   createLogicalDevice_uniqueQueueFamilies gpu_no_present = Inl BadOptionalAccess"
  by (simp add: gpu_no_present_def gpu_discrete_def swapchain_extension_def deviceExtensions_def
        VK_KHR_SWAPCHAIN_EXTENSION_NAME_def findQueueFamilies_def findQueueFamilies_body_def
        isComplete_def VK_QUEUE_GRAPHICS_BIT_def rateDeviceSuitability_def
        checkDeviceExtensionSupport_def checkAdequateSwapChain_def querySwapChainSupport_def
        pickPhysicalDevice_def isDeviceSuitable_def isDeviceSuitable_calls_def
        createLogicalDevice_uniqueQueueFamilies_def)

section \<open>Surface format\<close>

lemma chooseSwapSurfaceFormat_loop_find:
  "chooseSwapSurfaceFormat_loop xs =
     find (\<lambda>f. format f = VK_FORMAT_B8G8R8A8_SRGB \<and>
                colorSpace f = VK_COLOR_SPACE_SRGB_NONLINEAR_KHR) xs"
  by (induction xs) simp_all

text \<open>
  Claim C8. On a non-empty list \<^verbatim>\<open>chooseSwapSurfaceFormat\<close> returns the entry at the lowest
  index whose format is \<^verbatim>\<open>VK_FORMAT_B8G8R8A8_SRGB\<close> and whose colour space is
  \<^verbatim>\<open>VK_COLOR_SPACE_SRGB_NONLINEAR_KHR\<close>; when no entry matches it returns the entry at
  index 0, whatever that entry is.
\<close>

theorem chooseSwapSurfaceFormat_first_match_or_index0:
  assumes "availableFormats \<noteq> []"
  shows "(\<forall>i < length availableFormats.
            (format (availableFormats ! i) = VK_FORMAT_B8G8R8A8_SRGB \<and>
             colorSpace (availableFormats ! i) = VK_COLOR_SPACE_SRGB_NONLINEAR_KHR) \<and>
            (\<forall>j < i. \<not> (format (availableFormats ! j) = VK_FORMAT_B8G8R8A8_SRGB \<and>
                         colorSpace (availableFormats ! j) = VK_COLOR_SPACE_SRGB_NONLINEAR_KHR))
            \<longrightarrow> chooseSwapSurfaceFormat availableFormats = Inr (availableFormats ! i)) \<and>
         ((\<forall>i < length availableFormats.
             \<not> (format (availableFormats ! i) = VK_FORMAT_B8G8R8A8_SRGB \<and>
                colorSpace (availableFormats ! i) = VK_COLOR_SPACE_SRGB_NONLINEAR_KHR))
            \<longrightarrow> chooseSwapSurfaceFormat availableFormats = Inr (availableFormats ! 0))"
proof (intro conjI allI impI)
  fix i
  assume "i < length availableFormats"
    and "(format (availableFormats ! i) = VK_FORMAT_B8G8R8A8_SRGB \<and>
             colorSpace (availableFormats ! i) = VK_COLOR_SPACE_SRGB_NONLINEAR_KHR) \<and>
            (\<forall>j < i. \<not> (format (availableFormats ! j) = VK_FORMAT_B8G8R8A8_SRGB \<and>
                         colorSpace (availableFormats ! j) = VK_COLOR_SPACE_SRGB_NONLINEAR_KHR))"
  then have "chooseSwapSurfaceFormat_loop availableFormats = Some (availableFormats ! i)"
    unfolding chooseSwapSurfaceFormat_loop_find find_Some_iff by blast
  then show "chooseSwapSurfaceFormat availableFormats = Inr (availableFormats ! i)"
    by (simp add: chooseSwapSurfaceFormat_def)
next
  assume "\<forall>i < length availableFormats.
             \<not> (format (availableFormats ! i) = VK_FORMAT_B8G8R8A8_SRGB \<and>
                colorSpace (availableFormats ! i) = VK_COLOR_SPACE_SRGB_NONLINEAR_KHR)"
  then have "chooseSwapSurfaceFormat_loop availableFormats = None"
    unfolding chooseSwapSurfaceFormat_loop_find find_None_iff by (metis in_set_conv_nth)
  with assms show "chooseSwapSurfaceFormat availableFormats = Inr (availableFormats ! 0)"
    by (simp add: chooseSwapSurfaceFormat_def)
qed

theorem chooseSwapSurfaceFormat_first_match_or_index0_witness:
  "[format_rgba_unorm, format_bgra_srgb, format_bgra_srgb] \<noteq> [] \<and>
   chooseSwapSurfaceFormat [format_rgba_unorm, format_bgra_srgb, format_bgra_srgb] = Inr format_bgra_srgb \<and>
   [format_rgba_unorm] \<noteq> [] \<and>
   chooseSwapSurfaceFormat [format_rgba_unorm] = Inr format_rgba_unorm"
proof -
  have a: "[format_rgba_unorm, format_bgra_srgb, format_bgra_srgb] \<noteq> []" by simp
  have b: "[format_rgba_unorm] \<noteq> []" by simp
  have "chooseSwapSurfaceFormat [format_rgba_unorm, format_bgra_srgb, format_bgra_srgb] =
          Inr ([format_rgba_unorm, format_bgra_srgb, format_bgra_srgb] ! 1)"
    using chooseSwapSurfaceFormat_first_match_or_index0 [OF a, THEN conjunct1, rule_format, of 1]
    by (simp add: format_rgba_unorm_def format_bgra_srgb_def VK_FORMAT_B8G8R8A8_SRGB_def
          VK_COLOR_SPACE_SRGB_NONLINEAR_KHR_def)
  moreover have "chooseSwapSurfaceFormat [format_rgba_unorm] = Inr ([format_rgba_unorm] ! 0)"
    using chooseSwapSurfaceFormat_first_match_or_index0 [OF b, THEN conjunct2]
    by (simp add: format_rgba_unorm_def VK_FORMAT_B8G8R8A8_SRGB_def)
  ultimately show ?thesis by simp
qed

lemma chooseSwapSurfaceFormat_total:
  assumes "availableFormats \<noteq> []"
  shows "\<exists>f \<in> set availableFormats. chooseSwapSurfaceFormat availableFormats = Inr f"
proof (cases "chooseSwapSurfaceFormat_loop availableFormats")
  case None
  with assms show ?thesis by (simp add: chooseSwapSurfaceFormat_def)
next
  case (Some f)
  then have "f \<in> set availableFormats"
    unfolding chooseSwapSurfaceFormat_loop_find find_Some_iff by auto
  with Some show ?thesis by (simp add: chooseSwapSurfaceFormat_def)
qed

lemma rateDeviceSuitability_positive:
  assumes "0 < rateDeviceSuitability device"
  shows "surfaceFormats device \<noteq> [] \<and> surfacePresentModes device \<noteq> []"
  using assms
  by (auto simp add: rateDeviceSuitability_def Let_def checkAdequateSwapChain_def
        querySwapChainSupport_def split: if_splits)

text \<open>
  Claim C9. A device with a strictly positive score reports a non-empty format list and
  a non-empty present mode list, so \<^verbatim>\<open>chooseSwapSurfaceFormat\<close> returns an element of the
  list and the read of \<^verbatim>\<open>availableFormats[0]\<close> stays inside the vector; \<^verbatim>\<open>createSwapChain\<close>
  then fills its create info without the out-of-bounds failure. The same holds for every
  device that \<^verbatim>\<open>pickPhysicalDevice\<close> selects.
\<close>

theorem selected_device_swapchain_in_bounds:
  "(0 < rateDeviceSuitability device \<longrightarrow>
      surfaceFormats device \<noteq> [] \<and> surfacePresentModes device \<noteq> [] \<and>
      formats (querySwapChainSupport device) \<noteq> [] \<and>
      presentModes (querySwapChainSupport device) \<noteq> [] \<and>
      (\<exists>f \<in> set (formats (querySwapChainSupport device)).
          chooseSwapSurfaceFormat (formats (querySwapChainSupport device)) = Inr f) \<and>
      (\<exists>createInfo. createSwapChain_createInfo device = Inr createInfo)) \<and>
   (pickPhysicalDevice devices = Inr device \<longrightarrow>
      (\<exists>createInfo. createSwapChain_createInfo device = Inr createInfo))"
proof -
  have *: "surfaceFormats device \<noteq> [] \<and> surfacePresentModes device \<noteq> [] \<and>
      formats (querySwapChainSupport device) \<noteq> [] \<and>
      presentModes (querySwapChainSupport device) \<noteq> [] \<and>
      (\<exists>f \<in> set (formats (querySwapChainSupport device)).
          chooseSwapSurfaceFormat (formats (querySwapChainSupport device)) = Inr f) \<and>
      (\<exists>createInfo. createSwapChain_createInfo device = Inr createInfo)"
    if "0 < rateDeviceSuitability device"
  proof -
    from rateDeviceSuitability_positive [OF that]
    have ne: "surfaceFormats device \<noteq> []" "surfacePresentModes device \<noteq> []" by simp_all
    from chooseSwapSurfaceFormat_total [OF ne(1)]
    obtain f where f: "f \<in> set (surfaceFormats device)"
      "chooseSwapSurfaceFormat (surfaceFormats device) = Inr f" by blast
    then have "\<exists>createInfo. createSwapChain_createInfo device = Inr createInfo"
      by (simp add: createSwapChain_createInfo_def querySwapChainSupport_def Let_def)
    with ne f show ?thesis by (auto simp add: querySwapChainSupport_def)
  qed
  show ?thesis using * pickPhysicalDevice_Inr [of devices device] by blast
qed

theorem selected_device_swapchain_in_bounds_witness:
  "0 < rateDeviceSuitability gpu_discrete \<and>
   pickPhysicalDevice [gpu_discrete] = Inr gpu_discrete \<and>
   surfaceFormats gpu_discrete \<noteq> [] \<and>
   surfacePresentModes gpu_discrete \<noteq> [] \<and>
   createSwapChain_createInfo gpu_discrete \<noteq> Inl OutOfBoundsAccess"
proof -
  have r: "rateDeviceSuitability gpu_discrete = 9202"
    by (simp add: gpu_discrete_def swapchain_extension_def
          deviceExtensions_def VK_KHR_SWAPCHAIN_EXTENSION_NAME_def findQueueFamilies_def
          findQueueFamilies_body_def isComplete_def VK_QUEUE_GRAPHICS_BIT_def
          rateDeviceSuitability_def checkDeviceExtensionSupport_def checkAdequateSwapChain_def
          querySwapChainSupport_def)
  have p: "pickPhysicalDevice [gpu_discrete] = Inr gpu_discrete"
    by (simp add: pickPhysicalDevice_def r)
  show ?thesis
    using selected_device_swapchain_in_bounds [of gpu_discrete "[gpu_discrete]"] r p by auto
qed

section \<open>Swap extent\<close>

text \<open>
  Claim C6. The sentinel is what the source tests: \<^verbatim>\<open>currentExtent.width\<close> equal to
  \<^verbatim>\<open>UINT32_MAX\<close>. With the sentinel \<^verbatim>\<open>chooseSwapExtent\<close> returns the preferred size
  \<open>(WIDTH, HEIGHT)\<close> clamped componentwise into the bounds: the result lies within the
  bounds when they are ordered, equals the preferred component when that is inside them,
  the lower bound when it is below, and the upper bound when it is above. Without the
  sentinel it returns \<^verbatim>\<open>currentExtent\<close> unchanged. For a current extent of
  \<open>(0xFFFFFFFF, 0xFFFFFFFF)\<close> and bounds \<open>(1,1)\<close> and \<open>(4096,4096)\<close> the result is
  \<open>(800,600)\<close>.
\<close>

theorem chooseSwapExtent_clamps:
  "(width (currentExtent caps) = UINT32_MAX \<longrightarrow>
      (let e = chooseSwapExtent caps; lo = minImageExtent caps; hi = maxImageExtent caps in
         (width lo \<le> width hi \<longrightarrow> width lo \<le> width e \<and> width e \<le> width hi) \<and>
         (width lo \<le> WIDTH \<and> WIDTH \<le> width hi \<longrightarrow> width e = WIDTH) \<and>
         (WIDTH < width lo \<longrightarrow> width e = width lo) \<and>
         (width lo \<le> width hi \<and> width hi < WIDTH \<longrightarrow> width e = width hi) \<and>
         (height lo \<le> height hi \<longrightarrow> height lo \<le> height e \<and> height e \<le> height hi) \<and>
         (height lo \<le> HEIGHT \<and> HEIGHT \<le> height hi \<longrightarrow> height e = HEIGHT) \<and>
         (HEIGHT < height lo \<longrightarrow> height e = height lo) \<and>
         (height lo \<le> height hi \<and> height hi < HEIGHT \<longrightarrow> height e = height hi))) \<and>
   (width (currentExtent caps) \<noteq> UINT32_MAX \<longrightarrow> chooseSwapExtent caps = currentExtent caps) \<and>
   chooseSwapExtent \<lparr>minImageCount = a, maxImageCount = b,
                      currentExtent = \<lparr>width = 0xFFFFFFFF, height = 0xFFFFFFFF\<rparr>,
                      minImageExtent = \<lparr>width = 1, height = 1\<rparr>,
                      maxImageExtent = \<lparr>width = 4096, height = 4096\<rparr>,
                      currentTransform = t\<rparr> = \<lparr>width = 800, height = 600\<rparr>"
  by (auto simp add: chooseSwapExtent_def Let_def UINT32_MAX_def WIDTH_def HEIGHT_def max_def min_def)

theorem chooseSwapExtent_clamps_witness:
  "width (currentExtent caps_sentinel) = UINT32_MAX \<and>
   width (minImageExtent caps_sentinel) \<le> WIDTH \<and> WIDTH \<le> width (maxImageExtent caps_sentinel) \<and>
   height (minImageExtent caps_sentinel) \<le> HEIGHT \<and> HEIGHT \<le> height (maxImageExtent caps_sentinel) \<and>
   width (chooseSwapExtent caps_sentinel) = 800 \<and>
   height (chooseSwapExtent caps_sentinel) = 600 \<and>
   width (currentExtent caps_height_only) \<noteq> UINT32_MAX \<and>
   chooseSwapExtent caps_height_only = \<lparr>width = 1024, height = 0xFFFFFFFF\<rparr>"
  using chooseSwapExtent_clamps [of caps_sentinel] chooseSwapExtent_clamps [of caps_height_only]
  by (simp add: caps_sentinel_def caps_height_only_def UINT32_MAX_def WIDTH_def HEIGHT_def Let_def)

text \<open>
  Claim C10. Only the width of \<^verbatim>\<open>currentExtent\<close> decides the branch: when it differs from
  \<^verbatim>\<open>UINT32_MAX\<close> the current extent is returned as it is, and replacing the height by any
  value \<open>h\<close>, \<^verbatim>\<open>UINT32_MAX\<close> included, leaves the branch taken unchanged.
\<close>

theorem chooseSwapExtent_width_only:
  "(width (currentExtent caps) \<noteq> UINT32_MAX \<longrightarrow> chooseSwapExtent caps = currentExtent caps) \<and>
   chooseSwapExtent (caps\<lparr>currentExtent := (currentExtent caps)\<lparr>height := h\<rparr>\<rparr>) =
     (if width (currentExtent caps) \<noteq> UINT32_MAX
      then (currentExtent caps)\<lparr>height := h\<rparr>
      else chooseSwapExtent caps)"
  by (simp add: chooseSwapExtent_def)

theorem chooseSwapExtent_width_only_witness:
  "width (currentExtent caps_height_only) \<noteq> UINT32_MAX \<and>
   height (currentExtent caps_height_only) = UINT32_MAX \<and>
   chooseSwapExtent caps_height_only = currentExtent caps_height_only \<and>
   chooseSwapExtent (caps_sentinel\<lparr>currentExtent := (currentExtent caps_sentinel)\<lparr>height := 5\<rparr>\<rparr>) =
     chooseSwapExtent caps_sentinel"
  using chooseSwapExtent_width_only [of caps_height_only 0]
    chooseSwapExtent_width_only [of caps_sentinel 5]
  by (simp add: caps_height_only_def caps_sentinel_def UINT32_MAX_def)

section \<open>Image count\<close>

lemma uint32_succ_unat:
  fixes x :: "32 word"
  assumes "x \<noteq> 0xFFFFFFFF"
  shows "unat (x + 1) = unat x + 1"
proof -
  have "unat x \<noteq> unat (0xFFFFFFFF :: 32 word)"
    using assms by (simp only: word_unat_eq_iff not_False_eq_True)
  moreover have "unat x < 2 ^ 32"
    using unsigned_less [of x] by simp
  ultimately have "unat x + 1 < 2 ^ 32" by simp
  then show ?thesis by (simp add: unat_word_ariths)
qed

text \<open>
  Claim C7, amended. Provided \<^verbatim>\<open>minImageCount\<close> is not \<open>0xFFFFFFFF\<close>, so that
  \<open>minImageCount + 1\<close> does not wrap: the image count is \<open>minImageCount + 1\<close>, except that
  it is \<^verbatim>\<open>maxImageCount\<close> when that is nonzero and smaller; hence whenever
  \<^verbatim>\<open>maxImageCount\<close> is 0 or at least \<^verbatim>\<open>minImageCount\<close>, the count is at least
  \<^verbatim>\<open>minImageCount\<close> and, for a nonzero \<^verbatim>\<open>maxImageCount\<close>, at most \<^verbatim>\<open>maxImageCount\<close>.
  A minimum of 2 gives 3 with no maximum and 2 with a maximum of 2.
\<close>

theorem createSwapChain_imageCount_bounds:
  assumes "minImageCount caps \<noteq> UINT32_MAX"
  shows "unat (createSwapChain_imageCount caps) =
           (if maxImageCount caps \<noteq> 0 \<and> unat (maxImageCount caps) < unat (minImageCount caps) + 1
            then unat (maxImageCount caps) else unat (minImageCount caps) + 1) \<and>
         (maxImageCount caps = 0 \<or> minImageCount caps \<le> maxImageCount caps \<longrightarrow>
            minImageCount caps \<le> createSwapChain_imageCount caps \<and>
            (maxImageCount caps \<noteq> 0 \<longrightarrow> createSwapChain_imageCount caps \<le> maxImageCount caps)) \<and>
         createSwapChain_imageCount (caps\<lparr>minImageCount := 2, maxImageCount := 0\<rparr>) = 3 \<and>
         createSwapChain_imageCount (caps\<lparr>minImageCount := 2, maxImageCount := 2\<rparr>) = 2"
proof -
  have s: "unat (minImageCount caps + 1) = unat (minImageCount caps) + 1"
    using assms by (simp add: UINT32_MAX_def uint32_succ_unat)
  have z: "maxImageCount caps > 0 \<longleftrightarrow> maxImageCount caps \<noteq> 0"
    by (simp add: word_greater_zero_iff)
  show ?thesis
    by (auto simp add: createSwapChain_imageCount_def Let_def z s word_less_nat_alt
          word_le_nat_alt unat_eq_0)
qed

theorem createSwapChain_imageCount_bounds_witness:
  "minImageCount caps_sentinel \<noteq> UINT32_MAX \<and>
   maxImageCount caps_sentinel = 0 \<and>
   unat (createSwapChain_imageCount caps_sentinel) = 3 \<and>
   minImageCount caps_sentinel \<le> createSwapChain_imageCount caps_sentinel"
  using createSwapChain_imageCount_bounds [of caps_sentinel]
  by (simp add: caps_sentinel_def UINT32_MAX_def)

text \<open>
  Claim C7 as stated fails where the addition wraps: with a minimum of \<open>0xFFFFFFFF\<close> and
  no maximum the count is 0, which is neither the minimum plus one nor at least the
  minimum.
\<close>

theorem createSwapChain_imageCount_wraps:
  "maxImageCount caps_min_wraps = 0 \<and>
   createSwapChain_imageCount caps_min_wraps = 0 \<and>
   \<not> minImageCount caps_min_wraps \<le> createSwapChain_imageCount caps_min_wraps \<and>
   unat (createSwapChain_imageCount caps_min_wraps) \<noteq> unat (minImageCount caps_min_wraps) + 1"
  by (simp add: caps_min_wraps_def createSwapChain_imageCount_def)

end
